theory Spec2Isabelle
  imports Complex_Main
begin

section \<open>Python values used by the pipeline\<close>

text \<open>
  Python strings are modelled as \<open>string\<close>: one \<open>char\<close> per code point, for code points
  0 to 255. Floats (the classifier's confidence, the readability grade) are modelled as
  \<open>real\<close>. Exceptions are values of \<open>error\<close>; a function that can raise returns
  \<open>error + 'a\<close>.
\<close>

datatype error = KeyError | IndexError | AttributeError | ProviderError | ValidationError

text \<open>A JSON value held by a row of the record store: a string or null.\<close>

datatype jv = JNull | JStr string

fun py_str :: "jv \<Rightarrow> string" where
  "py_str JNull = ''None''"
| "py_str (JStr s) = s"

definition is_space :: "char \<Rightarrow> bool" where
  \<comment> \<open>The characters \<open>str.strip()\<close> and the pattern \<open>\\s\<close> treat as whitespace.\<close>
  "is_space c = (let n = (of_char c :: nat) in
     (9 \<le> n \<and> n \<le> 13) \<or> (28 \<le> n \<and> n \<le> 32) \<or> n = 133 \<or> n = 160)"

definition strip_chars :: "(char \<Rightarrow> bool) \<Rightarrow> string \<Rightarrow> string" where
  \<comment> \<open>\<open>str.strip\<close>: drop the matching characters from both ends.\<close>
  "strip_chars P s = rev (dropWhile P (rev (dropWhile P s)))"

definition py_strip :: "string \<Rightarrow> string" where
  "py_strip s = strip_chars is_space s"

definition py_lower_char :: "char \<Rightarrow> char" where
  \<comment> \<open>\<open>str.lower()\<close> on one code point below 256: A-Z and the capitals of Latin-1.\<close>
  "py_lower_char c = (let n = (of_char c :: nat) in
     if (65 \<le> n \<and> n \<le> 90) \<or> (192 \<le> n \<and> n \<le> 222 \<and> n \<noteq> 215)
     then char_of (n + 32) else c)"

definition py_lower :: "string \<Rightarrow> string" where
  "py_lower s = map py_lower_char s"

fun py_join :: "string \<Rightarrow> string list \<Rightarrow> string" where
  "py_join sep [] = []"
| "py_join sep [x] = x"
| "py_join sep (x # y # ys) = x @ sep @ py_join sep (y # ys)"


section \<open>AgentState and node outcomes (agent/state.py)\<close>

record message =
  content :: string

record jargon_mapping =
  jm_term :: string
  plain_english :: string
  source_note_id :: string
  source_sentence :: string
  char_offset_start :: int
  char_offset_end :: int

text \<open>
  A key of the state dictionary may be absent: \<open>None\<close> is what \<open>state.get(key)\<close> returns,
  for an absent key and for a key holding Python's \<open>None\<close> alike.
\<close>

record agent_state =
  messages :: "message list"
  intent :: "string option"
  confidence :: "real option"
  tenant_id :: "string option"
  user_id :: "string option"
  session_id :: "string option"
  tool_error :: "string option"
  raw_response :: "string option"
  final_response :: "string option"
  jargon_map :: "jargon_mapping list option"
  refusal_context_facts :: "string list option"

text \<open>A node returns a dictionary of the keys it sets; the executor writes them into the state.\<close>

datatype field_update =
    SetIntent string
  | SetConfidence real
  | SetToolError string
  | SetRawResponse "string option"
  | SetFinalResponse string
  | SetJargonMap "jargon_mapping list"
  | SetRefusalContextFacts "string list"

fun apply_update :: "field_update \<Rightarrow> agent_state \<Rightarrow> agent_state" where
  "apply_update (SetIntent i) st = st\<lparr>intent := Some i\<rparr>"
| "apply_update (SetConfidence c) st = st\<lparr>confidence := Some c\<rparr>"
| "apply_update (SetToolError e) st = st\<lparr>tool_error := Some e\<rparr>"
| "apply_update (SetRawResponse r) st = st\<lparr>raw_response := r\<rparr>"
| "apply_update (SetFinalResponse r) st = st\<lparr>final_response := Some r\<rparr>"
| "apply_update (SetJargonMap m) st = st\<lparr>jargon_map := Some m\<rparr>"
| "apply_update (SetRefusalContextFacts fs) st = st\<lparr>refusal_context_facts := Some fs\<rparr>"

definition merge_outcome :: "agent_state \<Rightarrow> field_update list \<Rightarrow> agent_state" where
  "merge_outcome st us = fold apply_update us st"

text \<open>What a node does outside the state: calls to the external collaborators.\<close>

datatype event = LLMCall | DBQuery | AuditInsert

type_synonym node_result = "error + (field_update list \<times> event list)"


section \<open>Intent router (agent/graph.py)\<close>

definition safe_low_confidence :: "string option set" where
  "safe_low_confidence = {
     Some ''GENERAL'', Some ''CARE_NAVIGATION'', Some ''RECORD_COLLECTION'',
     Some ''RECORD_LOOKUP'', Some ''NOTE_EXPLANATION'',
     Some ''PRE_VISIT_PREP'', Some ''SCHEDULING'', Some ''JARGON_EXPLAIN''}"

definition routing_map :: "(string option \<times> string) list" where
  "routing_map = [
     (Some ''MEDICAL_ADVICE'',    ''refusal''),
     (Some ''NOTE_EXPLANATION'',  ''note_explainer''),
     (Some ''CARE_NAVIGATION'',   ''care_navigator''),
     (Some ''RECORD_COLLECTION'', ''record_collector''),
     (Some ''SCHEDULING'',        ''calendar_tool''),
     (Some ''RECORD_LOOKUP'',     ''record_lookup''),
     (Some ''JARGON_EXPLAIN'',    ''jargon_explainer''),
     (Some ''PRE_VISIT_PREP'',    ''pre_visit_prep''),
     (Some ''GENERAL'',           ''note_summarizer''),
     (None,                       ''care_navigator'')]"

definition routing_map_get :: "string option \<Rightarrow> string" where
  \<comment> \<open>\<open>routing_map.get(intent, "care_navigator")\<close>\<close>
  "routing_map_get i = (case map_of routing_map i of Some n \<Rightarrow> n | None \<Rightarrow> ''care_navigator'')"

definition get_confidence :: "agent_state \<Rightarrow> real" where
  \<comment> \<open>\<open>state.get("confidence", 0.0)\<close>\<close>
  "get_confidence st = (case confidence st of Some c \<Rightarrow> c | None \<Rightarrow> 0.0)"

definition confidence_gate :: "agent_state \<Rightarrow> bool" where
  \<comment> \<open>The condition of the first \<open>if\<close> of \<open>route_by_intent\<close>.\<close>
  "confidence_gate st = (get_confidence st < 0.70 \<and> intent st \<notin> safe_low_confidence)"

definition route_by_intent :: "agent_state \<Rightarrow> string" where
  "route_by_intent st =
     (if confidence_gate st then ''refusal'' else routing_map_get (intent st))"

definition after_tool_node :: "agent_state \<Rightarrow> string" where
  "after_tool_node st =
     (if raw_response st \<noteq> None then ''guardrail'' else ''response_assembler'')"


section \<open>Intent classifier (agent/nodes/intent_classifier.py)\<close>

definition IntentType :: "string list" where
  "IntentType = [''MEDICAL_ADVICE'', ''NOTE_EXPLANATION'', ''SCHEDULING'', ''RECORD_LOOKUP'',
     ''JARGON_EXPLAIN'', ''PRE_VISIT_PREP'', ''CARE_NAVIGATION'', ''RECORD_COLLECTION'',
     ''GENERAL'']"

text \<open>
  The provider's reply: the call or \<open>json.loads\<close> raised, or a payload with an intent and a
  confidence, which \<open>IntentResult\<close> validates (a literal of \<open>IntentType\<close>, a confidence in
  [0, 1]).
\<close>

definition IntentResult :: "string \<times> real \<Rightarrow> error + (string \<times> real)" where
  "IntentResult p = (case p of (i, c) \<Rightarrow>
     if i \<in> set IntentType \<and> 0 \<le> c \<and> c \<le> 1 then Inr (i, c) else Inl ValidationError)"

definition classification_failure :: "field_update list" where
  \<comment> \<open>The \<open>except\<close> branch of the classifier.\<close>
  "classification_failure = [SetIntent ''CARE_NAVIGATION'', SetConfidence 0.0]"

definition intent_classifier_run :: "(error + (string \<times> real)) \<Rightarrow> agent_state \<Rightarrow> node_result" where
  "intent_classifier_run reply st =
     (case messages st of
        [] \<Rightarrow> Inl IndexError
      | _ # _ \<Rightarrow>
          (case reply of
             Inl _ \<Rightarrow> Inr (classification_failure, [LLMCall])
           | Inr p \<Rightarrow>
               (case IntentResult p of
                  Inl _ \<Rightarrow> Inr (classification_failure, [LLMCall])
                | Inr (i, c) \<Rightarrow> Inr ([SetIntent i, SetConfidence c], [LLMCall]))))"


section \<open>Refusal node (agent/nodes/refusal_node.py)\<close>

definition REFUSAL_TEMPLATE :: string where
  "REFUSAL_TEMPLATE =
     ''I'm not able to give medical advice, diagnoses, or treatment recommendations. '' @
     ''For medical concerns, please contact your care team directly.'' @ [CHR 0x0A, CHR 0x0A] @
     ''I found these notes from your care team that may be relevant:''"

definition NO_RECORDS_TEMPLATE :: string where
  "NO_RECORDS_TEMPLATE =
     ''I'm not able to give medical advice, diagnoses, or treatment recommendations. '' @
     ''Please contact your care team directly for medical questions.''"

definition BULLET :: string where
  \<comment> \<open>U+2022 lies beyond 255; it stands here as its three UTF-8 bytes. No operation looks inside it.\<close>
  "BULLET = [CHR 0xE2, CHR 0x80, CHR 0xA2]"

text \<open>A row of \<open>search_patient_notes\<close>; \<open>None\<close> is an absent key.\<close>

record note_row =
  note_date :: "jv option"
  provider_name :: "jv option"
  relevant_excerpt :: "jv option"

text \<open>
  The record store: the arguments of the RPC (query text, user id, limit, tenant id) to a
  raised exception or to \<open>result.data\<close>, which may be null.
\<close>

type_synonym record_store = "string \<Rightarrow> string \<Rightarrow> nat \<Rightarrow> string \<Rightarrow> error + note_row list option"

definition row_fact :: "note_row \<Rightarrow> error + string option" where
  \<comment> \<open>One pass of the loop body: the fact to append, nothing, or the exception of \<open>None.strip()\<close>.\<close>
  "row_fact row =
     (let date_str = take 10 (py_str (case note_date row of None \<Rightarrow> JStr '''' | Some v \<Rightarrow> v));
          provider = py_str (case provider_name row of None \<Rightarrow> JStr ''Your care team'' | Some v \<Rightarrow> v)
      in case (case relevant_excerpt row of None \<Rightarrow> JStr '''' | Some v \<Rightarrow> v) of
           JNull \<Rightarrow> Inl AttributeError
         | JStr e \<Rightarrow>
             (let excerpt = py_strip e
              in if excerpt \<noteq> [] then Inr (Some (provider @ '' ('' @ date_str @ ''): '' @ excerpt))
                 else Inr None))"

fun collect_facts :: "note_row list \<Rightarrow> string list \<Rightarrow> error + string list" where
  "collect_facts [] context_facts = Inr context_facts"
| "collect_facts (row # rows) context_facts =
     (case row_fact row of
        Inl e \<Rightarrow> Inl e
      | Inr None \<Rightarrow> collect_facts rows context_facts
      | Inr (Some f) \<Rightarrow> collect_facts rows (context_facts @ [f]))"

definition fetch_context_facts :: "record_store \<Rightarrow> string \<Rightarrow> string \<Rightarrow> string \<Rightarrow> string list" where
  \<comment> \<open>The \<open>try\<close> block with its \<open>except Exception: context_facts = []\<close>.\<close>
  "fetch_context_facts db tenant user user_query =
     (case db user_query user 3 tenant of
        Inl _ \<Rightarrow> []
      | Inr data \<Rightarrow>
          (case collect_facts (case data of None \<Rightarrow> [] | Some rows \<Rightarrow> rows) [] of
             Inl _ \<Rightarrow> []
           | Inr fs \<Rightarrow> fs))"

definition refusal_text :: "string list \<Rightarrow> string" where
  "refusal_text context_facts =
     (if context_facts \<noteq> [] then
        (let bullets = py_join [CHR 0x0A] (map (\<lambda>fact. ''  '' @ BULLET @ '' '' @ fact) context_facts)
         in REFUSAL_TEMPLATE @ [CHR 0x0A, CHR 0x0A] @ bullets)
      else NO_RECORDS_TEMPLATE)"

definition refusal_run :: "record_store \<Rightarrow> agent_state \<Rightarrow> node_result" where
  "refusal_run db st =
     (case tenant_id st of
        None \<Rightarrow> Inl KeyError
      | Some tenant \<Rightarrow>
          (case user_id st of
             None \<Rightarrow> Inl KeyError
           | Some user \<Rightarrow>
               (case messages st of
                  [] \<Rightarrow> Inl IndexError
                | _ # _ \<Rightarrow>
                    (let user_query = content (last (messages st));
                         context_facts = fetch_context_facts db tenant user user_query
                     in Inr ([SetFinalResponse (refusal_text context_facts),
                              SetRefusalContextFacts context_facts,
                              SetJargonMap [],
                              SetRawResponse None],
                             [DBQuery])))))"


section \<open>Graph topology and turn execution (agent/graph.py)\<close>

definition END :: string where
  "END = ''__end__''"

definition tool_nodes :: "string list" where
  "tool_nodes = [''care_navigator'', ''record_collector'', ''record_lookup'', ''note_summarizer'',
     ''note_explainer'', ''jargon_explainer'', ''calendar_tool'', ''medication_info'',
     ''pre_visit_prep'']"

definition next_node :: "string \<Rightarrow> agent_state \<Rightarrow> string" where
  \<comment> \<open>The edges \<open>build_graph\<close> adds, read from the node just run and the merged state.\<close>
  "next_node n st =
     (if n = ''emotional_assessor'' then ''intent_classifier''
      else if n = ''intent_classifier'' then route_by_intent st
      else if n = ''refusal'' then END
      else if n \<in> set tool_nodes then after_tool_node st
      else if n = ''guardrail'' then ''response_assembler''
      else END)"

record run_state =
  state :: agent_state
  path :: "string list"
  events :: "event list"

text \<open>
  The executor: run the node, merge its outcome, follow the edge; an exception of a node
  ends the turn. The fuel bounds the number of nodes run.
\<close>

fun run_graph :: "(string \<Rightarrow> agent_state \<Rightarrow> node_result) \<Rightarrow> nat \<Rightarrow> string \<Rightarrow> run_state
    \<Rightarrow> error + run_state option" where
  "run_graph nodes 0 n rs = (if n = END then Inr (Some rs) else Inr None)"
| "run_graph nodes (Suc fuel) n rs =
     (if n = END then Inr (Some rs)
      else case nodes n (state rs) of
             Inl e \<Rightarrow> Inl e
           | Inr (us, evs) \<Rightarrow>
               (let st' = merge_outcome (state rs) us
                in run_graph nodes fuel (next_node n st')
                     \<lparr>state = st', path = path rs @ [n], events = events rs @ evs\<rparr>))"


section \<open>Regular expressions (the part of \<open>re\<close> the guardrails use)\<close>

text \<open>
  A pattern is a syntax tree. Matching starts in a position of the text, given as the
  character before it (none at the start) and the text from it on, and returns the positions
  where a match can end, in the order backtracking tries them: the first is the match that
  \<open>re\<close> reports. Repetition is needed on character classes only.
\<close>

datatype citem = Ch char | Rng char char | ClsDigit | ClsSpace

fun in_item :: "citem \<Rightarrow> char \<Rightarrow> bool" where
  "in_item (Ch a) c = (c = a)"
| "in_item (Rng a b) c = ((of_char a :: nat) \<le> of_char c \<and> (of_char c :: nat) \<le> of_char b)"
| "in_item ClsDigit c = ((48::nat) \<le> of_char c \<and> (of_char c :: nat) \<le> 57)"
| "in_item ClsSpace c = is_space c"

definition in_class :: "citem list \<Rightarrow> char \<Rightarrow> bool" where
  "in_class cl c = list_ex (\<lambda>i. in_item i c) cl"

definition is_word_char :: "char \<Rightarrow> bool" where
  \<comment> \<open>\<open>\\w\<close> of a \<open>str\<close> pattern: alphanumeric or underscore.\<close>
  "is_word_char c = (let n = (of_char c :: nat) in
     (48 \<le> n \<and> n \<le> 57) \<or> (65 \<le> n \<and> n \<le> 90) \<or> n = 95 \<or> (97 \<le> n \<and> n \<le> 122) \<or>
     n = 170 \<or> n = 178 \<or> n = 179 \<or> n = 181 \<or> n = 185 \<or> n = 186 \<or> (188 \<le> n \<and> n \<le> 190) \<or>
     (192 \<le> n \<and> n \<le> 214) \<or> (216 \<le> n \<and> n \<le> 246) \<or> 248 \<le> n)"

type_synonym pos = "char option \<times> string"

definition at_boundary :: "pos \<Rightarrow> bool" where
  \<comment> \<open>\<open>\\b\<close>: exactly one of the two neighbours is a word character.\<close>
  "at_boundary ps =
     ((case fst ps of None \<Rightarrow> False | Some c \<Rightarrow> is_word_char c) \<noteq>
      (case snd ps of [] \<Rightarrow> False | x # _ \<Rightarrow> is_word_char x))"

datatype rx =
    Eps
  | Lit char
  | Cls "citem list"
  | WordB
  | Seq rx rx
  | Alt rx rx
  | Opt rx
  | Plus "citem list"
  | Star "citem list"

fun lit :: "string \<Rightarrow> rx" where
  "lit [] = Eps"
| "lit [c] = Lit c"
| "lit (c # d # cs) = Seq (Lit c) (lit (d # cs))"

fun seqs :: "rx list \<Rightarrow> rx" where
  "seqs [] = Eps"
| "seqs [r] = r"
| "seqs (r # q # rs) = Seq r (seqs (q # rs))"

fun alts :: "rx \<Rightarrow> rx list \<Rightarrow> rx" where
  "alts r [] = r"
| "alts r (q # rs) = Alt r (alts q rs)"

definition chr_eq :: "bool \<Rightarrow> char \<Rightarrow> char \<Rightarrow> bool" where
  \<comment> \<open>A literal against a character of the text, under \<open>re.IGNORECASE\<close> or not.\<close>
  "chr_eq ic a c = (if ic then py_lower_char a = py_lower_char c else a = c)"

fun star_run :: "(char \<Rightarrow> bool) \<Rightarrow> char option \<Rightarrow> string \<Rightarrow> pos list" where
  "star_run P p [] = [(p, [])]"
| "star_run P p (x # xs) = (if P x then star_run P (Some x) xs @ [(p, x # xs)] else [(p, x # xs)])"

fun rx_run :: "bool \<Rightarrow> rx \<Rightarrow> pos \<Rightarrow> pos list" where
  "rx_run ic Eps ps = [ps]"
| "rx_run ic (Lit a) ps =
     (case snd ps of [] \<Rightarrow> [] | x # xs \<Rightarrow> if chr_eq ic a x then [(Some x, xs)] else [])"
| "rx_run ic (Cls cl) ps =
     (case snd ps of [] \<Rightarrow> [] | x # xs \<Rightarrow> if in_class cl x then [(Some x, xs)] else [])"
| "rx_run ic WordB ps = (if at_boundary ps then [ps] else [])"
| "rx_run ic (Seq r q) ps = concat (map (rx_run ic q) (rx_run ic r ps))"
| "rx_run ic (Alt r q) ps = rx_run ic r ps @ rx_run ic q ps"
| "rx_run ic (Opt r) ps = rx_run ic r ps @ [ps]"
| "rx_run ic (Plus cl) ps =
     (case snd ps of [] \<Rightarrow> []
      | x # xs \<Rightarrow> if in_class cl x then star_run (in_class cl) (Some x) xs else [])"
| "rx_run ic (Star cl) ps = star_run (in_class cl) (fst ps) (snd ps)"

fun search_from :: "bool \<Rightarrow> rx \<Rightarrow> char option \<Rightarrow> string \<Rightarrow> bool" where
  "search_from ic r p [] = (rx_run ic r (p, []) \<noteq> [])"
| "search_from ic r p (x # xs) = (rx_run ic r (p, x # xs) \<noteq> [] \<or> search_from ic r (Some x) xs)"

definition re_search :: "bool \<times> rx \<Rightarrow> string \<Rightarrow> bool" where
  \<comment> \<open>\<open>pattern.search(text)\<close> as a truth value; the pattern carries its IGNORECASE flag.\<close>
  "re_search pat text = search_from (fst pat) (snd pat) None text"

text \<open>
  \<open>re.findall\<close> and \<open>re.split\<close> scan from the left; the counter is the number of characters
  of the current match still to pass. The patterns they are called with here cannot match the
  empty string, and a position with only an empty match counts as no match.
\<close>

fun findall_from :: "rx \<Rightarrow> char option \<Rightarrow> string \<Rightarrow> nat \<Rightarrow> string list" where
  "findall_from r p [] k = []"
| "findall_from r p (x # xs) (Suc k) = findall_from r (Some x) xs k"
| "findall_from r p (x # xs) 0 =
     (case rx_run False r (p, x # xs) of
        [] \<Rightarrow> findall_from r (Some x) xs 0
      | ps # _ \<Rightarrow>
          (let n = Suc (length xs) - length (snd ps)
           in if n = 0 then findall_from r (Some x) xs 0
              else take n (x # xs) # findall_from r (Some x) xs (n - 1)))"

definition re_findall :: "rx \<Rightarrow> string \<Rightarrow> string list" where
  "re_findall r text = findall_from r None text 0"

fun split_from :: "rx \<Rightarrow> char option \<Rightarrow> string \<Rightarrow> nat \<Rightarrow> string \<Rightarrow> string list" where
  "split_from r p [] k cur = [rev cur]"
| "split_from r p (x # xs) (Suc k) cur = split_from r (Some x) xs k cur"
| "split_from r p (x # xs) 0 cur =
     (case rx_run False r (p, x # xs) of
        [] \<Rightarrow> split_from r (Some x) xs 0 (x # cur)
      | ps # _ \<Rightarrow>
          (let n = Suc (length xs) - length (snd ps)
           in if n = 0 then split_from r (Some x) xs 0 (x # cur)
              else rev cur # split_from r (Some x) xs (n - 1) []))"

definition re_split :: "rx \<Rightarrow> string \<Rightarrow> string list" where
  "re_split r text = split_from r None text 0 []"


section \<open>Prohibited-phrase guard (guardrails/medical_output_guard.py)\<close>

definition SAFE_FALLBACK :: string where
  "SAFE_FALLBACK =
     ''I wasn't able to generate a safe response for that request. '' @
     ''Please contact your care team directly for medical guidance.'' @ [CHR 0x0A, CHR 0x0A] @
     ''You can reach me for factual questions about your own documented records.''"

definition RAW_PATTERNS :: "(rx \<times> string) list" where
  "RAW_PATTERNS = [
     (seqs [WordB, lit ''I diagnose'', WordB], ''I_diagnose''),
     (seqs [WordB, lit ''I recommend'', WordB], ''I_recommend''),
     (seqs [WordB, lit ''I suggest'', WordB], ''I_suggest''),
     (seqs [WordB, lit ''try this instead'', WordB], ''try_this_instead''),
     (seqs [WordB, lit ''you '', alts (lit ''should'') [lit ''must'', lit ''need to''], lit '' '',
            alts (lit ''take'') [lit ''stop'', lit ''start'', lit ''avoid'', lit ''use''], WordB],
      ''prescriptive_should''),
     (seqs [WordB, lit ''This '', alts (lit ''indicates'') [lit ''suggests'', lit ''means''],
            lit '' you have'', WordB],
      ''diagnostic_this_indicates''),
     (seqs [WordB, lit ''You '', alts (lit ''likely'') [lit ''probably'', lit ''definitely''],
            lit '' have'', WordB],
      ''you_likely_have''),
     (seqs [WordB, lit ''Your condition is'', WordB], ''your_condition_is''),
     (seqs [WordB, lit ''I '', alts (lit ''would'') [lit ''will'', lit ''can''],
            lit '' prescribe'', WordB],
      ''prescribe''),
     (seqs [WordB, lit ''you are '', alts (lit ''likely'') [lit ''probably''], lit '' '',
            alts (lit ''developing'') [lit ''experiencing''], WordB],
      ''you_are_developing''),
     (seqs [WordB, alts (lit ''cut out'') [lit ''stop eating'', lit ''avoid eating''], WordB],
      ''dietary_advice''),
     (seqs [WordB, lit ''take '', Opt (Seq (Plus [ClsDigit]) (Star [ClsSpace])),
            alts (lit ''mg'') [lit ''milligram'', lit ''tablet'', lit ''pill'', lit ''dose''], WordB],
      ''dosage_recommendation''),
     (seqs [WordB, lit ''seek '', alts (lit ''immediate'') [lit ''emergency'', lit ''urgent''],
            lit '' '', Opt (lit ''medical ''),
            alts (lit ''help'') [lit ''care'', lit ''attention''], WordB],
      ''emergency_directive'')]"

definition COMPILED_PATTERNS :: "((bool \<times> rx) \<times> string) list" where
  \<comment> \<open>\<open>re.compile(pattern, re.IGNORECASE)\<close> for each raw pattern.\<close>
  "COMPILED_PATTERNS = map (\<lambda>(pattern, name). ((True, pattern), name)) RAW_PATTERNS"

fun first_match :: "((bool \<times> rx) \<times> string) list \<Rightarrow> string \<Rightarrow> string option" where
  "first_match [] text = None"
| "first_match ((pattern, name) # rest) text =
     (if re_search pattern text then Some name else first_match rest text)"

definition apply_medical_guardrail :: "string \<Rightarrow> string \<times> bool \<times> string" where
  "apply_medical_guardrail text =
     (case first_match COMPILED_PATTERNS text of
        Some name \<Rightarrow> (SAFE_FALLBACK, True, name)
      | None \<Rightarrow> (text, False, ''''))"


section \<open>Readability guard (guardrails/readability_guard.py)\<close>

definition endswith :: "string \<Rightarrow> string \<Rightarrow> bool" where
  "endswith w suf = (length suf \<le> length w \<and> drop (length w - length suf) w = suf)"

definition PUNCT :: string where
  \<comment> \<open>The argument of \<open>strip\<close> in \<open>count_syllables\<close>: \<open>.,!?;:"'()\<close>\<close>
  "PUNCT = ''.,!?;:'' @ [CHR 0x22, CHR 0x27] @ ''()''"

definition VOWELS :: string where
  "VOWELS = ''aeiou''"

definition vowel_group_rx :: rx where
  \<comment> \<open>\<open>[aeiou]+\<close>\<close>
  "vowel_group_rx = Plus (map Ch VOWELS)"

definition count_syllables :: "string \<Rightarrow> nat" where
  "count_syllables word0 =
     (let word = strip_chars (\<lambda>c. c \<in> set PUNCT) (py_lower word0)
      in if word = [] then 0
         else if length word \<le> 3 then 1
         else
           (let word = (if endswith word ''e'' \<and> length word > 4 then butlast word else word);
                vowel_groups = re_findall vowel_group_rx word;
                syllables = length vowel_groups;
                syllables = (if endswith word ''le'' \<and> length word > 2
                                \<and> word ! (length word - 3) \<notin> set VOWELS
                             then syllables + 1 else syllables);
                syllables = (if endswith word ''ed'' \<and> syllables > 1
                             then syllables - 1 else syllables)
            in max 1 syllables))"

definition round_half_even :: "real \<Rightarrow> int" where
  "round_half_even y =
     (let n = \<lfloor>y\<rfloor>; f = y - of_int n
      in if f < 1 / 2 then n else if 1 / 2 < f then n + 1 else if even n then n else n + 1)"

definition py_round2 :: "real \<Rightarrow> real" where
  \<comment> \<open>\<open>round(x, 2)\<close>\<close>
  "py_round2 x = of_int (round_half_even (x * 100)) / 100"

definition fk_grade :: "real \<Rightarrow> real \<Rightarrow> real" where
  \<comment> \<open>The formula and the last line of \<open>check_readability\<close>, from the two averages.\<close>
  "fk_grade asl asw = (let grade = 0.39 * asl + 11.8 * asw - 15.59 in py_round2 (max 0.0 grade))"

definition sentence_end_rx :: rx where
  \<comment> \<open>\<open>[.!?]+\<close>\<close>
  "sentence_end_rx = Plus (map Ch ''.!?'')"

definition word_rx :: rx where
  \<comment> \<open>\<open>\\b[a-zA-Z']+\\b\<close>\<close>
  "word_rx = seqs [WordB, Plus [Rng CHR ''a'' CHR ''z'', Rng CHR ''A'' CHR ''Z'', Ch (CHR 0x27)], WordB]"

definition text_sentences :: "string \<Rightarrow> string list" where
  "text_sentences text = map py_strip (filter (\<lambda>s. py_strip s \<noteq> []) (re_split sentence_end_rx text))"

definition text_words :: "string \<Rightarrow> string list" where
  "text_words text = re_findall word_rx text"

definition check_readability :: "string \<Rightarrow> real" where
  "check_readability text =
     (if text = [] \<or> py_strip text = [] then 0.0
      else
        (let num_sentences = length (text_sentences text)
         in if num_sentences = 0 then 0.0
            else
              (let words = text_words text;
                   num_words = length words
               in if num_words = 0 then 0.0
                  else
                    (let total_syllables = sum_list (map count_syllables words);
                         asl = real num_words / real num_sentences;
                         asw = real total_syllables / real num_words
                     in fk_grade asl asw))))"


section \<open>Guardrail node (agent/nodes/guardrail_node.py)\<close>

definition READABILITY_THRESHOLD :: real where
  "READABILITY_THRESHOLD = 8.0"

text \<open>
  The rewrite step calls the generation provider: it raises, or returns the content of the
  first choice, which may be null.
\<close>

type_synonym rewriter = "string \<Rightarrow> error + string option"

definition simplify_text :: "rewriter \<Rightarrow> string \<Rightarrow> error + string" where
  "simplify_text llm text =
     (case llm text of
        Inl e \<Rightarrow> Inl e
      | Inr content_opt \<Rightarrow>
          (case content_opt of
             None \<Rightarrow> Inr text
           | Some c \<Rightarrow> if c = [] then Inr text else Inr c))"

definition guardrail_run :: "rewriter \<Rightarrow> agent_state \<Rightarrow> node_result" where
  "guardrail_run llm st =
     (let raw = (case raw_response st of None \<Rightarrow> '''' | Some r \<Rightarrow> r)
      in case apply_medical_guardrail raw of
           (cleaned, was_modified, matched_pattern) \<Rightarrow>
             if was_modified then
               Inr ([SetFinalResponse cleaned, SetJargonMap []], [AuditInsert])
             else
               (let grade_level = check_readability cleaned
                in if grade_level > READABILITY_THRESHOLD then
                     (case simplify_text llm cleaned of
                        Inl e \<Rightarrow> Inl e
                      | Inr simplified \<Rightarrow>
                          Inr ([SetFinalResponse simplified, SetJargonMap []], [LLMCall]))
                   else
                     Inr ([SetFinalResponse cleaned,
                           SetJargonMap (case jargon_map st of None \<Rightarrow> [] | Some m \<Rightarrow> m)], [])))"


section \<open>Jargon annotation (agent/nodes/note_summarizer.py)\<close>







section \<open>Turn entry and node table (routers/chat.py, agent/graph.py)\<close>

definition initial_state :: "string \<Rightarrow> string \<Rightarrow> string \<Rightarrow> message list \<Rightarrow> string \<Rightarrow> agent_state" where
  \<comment> \<open>The state the chat router hands to the graph: the current user message is last.\<close>
  "initial_state tenant user session history_messages msg =
     \<lparr>messages = history_messages @ [\<lparr>content = msg\<rparr>],
      intent = None,
      confidence = Some 0.0,
      tenant_id = Some tenant,
      user_id = Some user,
      session_id = Some session,
      tool_error = None,
      raw_response = None,
      final_response = None,
      jargon_map = Some [],
      refusal_context_facts = Some []\<rparr>"

definition node_table :: "(string \<Rightarrow> agent_state \<Rightarrow> node_result) \<Rightarrow> (error + (string \<times> real)) \<Rightarrow>
    record_store \<Rightarrow> rewriter \<Rightarrow> string \<Rightarrow> agent_state \<Rightarrow> node_result" where
  \<comment> \<open>The nodes \<open>build_graph\<close> registers: the three modelled here, and the others as given.\<close>
  "node_table others reply db llm n =
     (if n = ''intent_classifier'' then intent_classifier_run reply
      else if n = ''refusal'' then refusal_run db
      else if n = ''guardrail'' then guardrail_run llm
      else others n)"


section \<open>Specification-side definitions\<close>






text \<open>
  The formula as the interpreter computes it: every constant and every operation is rounded to
  a double by \<open>fl\<close>. With \<open>fl\<close> the identity this is \<open>fk_grade\<close>.
\<close>

definition fk_grade_fl :: "(real \<Rightarrow> real) \<Rightarrow> real \<Rightarrow> real \<Rightarrow> real" where
  "fk_grade_fl fl asl asw =
     (let grade = fl (fl (fl (fl 0.39 * asl) + fl (fl 11.8 * asw)) - fl 15.59)
      in fl (py_round2 (max (fl 0.0) grade)))"




section \<open>Literal prefixes of a pattern\<close>

text \<open>
  Every match of a pattern starts with one of its heads: the literal strings it can begin
  with. The flag says that the head is the whole match. A text in which no head occurs
  (case folded, under IGNORECASE) has no match.
\<close>

fun heads :: "rx \<Rightarrow> (string \<times> bool) list" where
  "heads Eps = [([], True)]"
| "heads (Lit a) = [([a], True)]"
| "heads (Cls cl) = [([], False)]"
| "heads WordB = [([], True)]"
| "heads (Seq r q) =
     concat (map (\<lambda>(u, c). if c then map (\<lambda>(v, d). (u @ v, d)) (heads q) else [(u, False)]) (heads r))"
| "heads (Alt r q) = heads r @ heads q"
| "heads (Opt r) = [([], False)]"
| "heads (Plus cl) = [([], False)]"
| "heads (Star cl) = [([], False)]"

fun starts_with :: "string \<Rightarrow> string \<Rightarrow> bool" where
  "starts_with [] s = True"
| "starts_with (a # u) [] = False"
| "starts_with (a # u) (x # xs) = (if a = x then starts_with u xs else False)"

fun occurs :: "string \<Rightarrow> string \<Rightarrow> bool" where
  "occurs u [] = (u = [])"
| "occurs u (x # xs) = (if starts_with u (x # xs) then True else occurs u xs)"

definition norm_case :: "bool \<Rightarrow> string \<Rightarrow> string" where
  "norm_case ic s = (if ic then py_lower s else s)"


section \<open>Scenario inputs\<close>

definition scenario_state :: "string option \<Rightarrow> real \<Rightarrow> agent_state" where
  \<comment> \<open>A turn as it leaves the classifier with the given intent and confidence.\<close>
  "scenario_state i c =
     (initial_state ''tenant-1'' ''user-1'' ''session-1'' [] ''Should I take my pill today?'')
       \<lparr>intent := i, confidence := Some c\<rparr>"

definition failing_store :: record_store where
  \<comment> \<open>A record store whose query raises.\<close>
  "failing_store = (\<lambda>query_text user limit_n tenant. Inl ProviderError)"

definition one_note_store :: record_store where
  \<comment> \<open>A record store that finds one note.\<close>
  "one_note_store = (\<lambda>query_text user limit_n tenant.
     Inr (Some [\<lparr>note_date = Some (JStr ''2024-03-05T10:00:00''),
                 provider_name = Some (JStr ''Dr. Smith''),
                 relevant_excerpt = Some (JStr '' Continue lisinopril. '')\<rparr>]))"

definition no_other_nodes :: "string \<Rightarrow> agent_state \<Rightarrow> node_result" where
  \<comment> \<open>A table in which every node not modelled here raises.\<close>
  "no_other_nodes = (\<lambda>n st. Inl ProviderError)"

definition failing_rewriter :: rewriter where
  "failing_rewriter = (\<lambda>text. Inl ProviderError)"


definition sample_mapping :: jargon_mapping where
  "sample_mapping = \<lparr>jm_term = ''metformin'', plain_english = ''a diabetes medicine'',
     source_note_id = ''note-1'', source_sentence = ''Start metformin 500 mg.'',
     char_offset_start = 0, char_offset_end = 9\<rparr>"

definition tool_state :: "string \<Rightarrow> agent_state" where
  \<comment> \<open>A turn as it leaves a tool node with the given raw response and one jargon annotation.\<close>
  "tool_state raw =
     (scenario_state (Some ''NOTE_EXPLANATION'') 0.9)
       \<lparr>raw_response := Some raw, jargon_map := Some [sample_mapping]\<rparr>"





section \<open>Routing properties\<close>

lemma advice_not_safe: "Some ''MEDICAL_ADVICE'' \<notin> safe_low_confidence"
  by (simp add: safe_low_confidence_def)

lemma routing_map_get_safe: "i \<in> safe_low_confidence \<Longrightarrow> routing_map_get i \<noteq> ''refusal''"
  by (auto simp add: safe_low_confidence_def routing_map_get_def routing_map_def)

lemma advice_routes_refusal:
  "intent st = Some ''MEDICAL_ADVICE'' \<Longrightarrow> route_by_intent st = ''refusal''"
  by (simp add: route_by_intent_def routing_map_get_def routing_map_def)

lemma routing_map_get_None: "routing_map_get None = ''care_navigator''"
  by (simp add: routing_map_get_def routing_map_def)

lemma refusal_run_wf:
  assumes "tenant_id st = Some t" "user_id st = Some u" "messages st \<noteq> []"
  shows "refusal_run db st =
     Inr ([SetFinalResponse (refusal_text (fetch_context_facts db t u (content (last (messages st))))),
           SetRefusalContextFacts (fetch_context_facts db t u (content (last (messages st)))),
           SetJargonMap [], SetRawResponse None], [DBQuery])"
  using assms by (cases "messages st") (simp_all add: refusal_run_def Let_def)

lemma refusal_run_Inr:
  assumes "refusal_run db st = Inr (us, evs)"
  shows "\<exists>t u. tenant_id st = Some t \<and> user_id st = Some u \<and> messages st \<noteq> []"
  using assms by (auto simp add: refusal_run_def Let_def split: option.splits list.splits)

lemma refusal_not_END: "''refusal'' \<noteq> END"
  by (simp add: END_def)

lemma next_after_refusal: "next_node ''refusal'' st = END"
  by (simp add: next_node_def)

lemma scenario_state_simps:
  "intent (scenario_state i c) = i"
  "confidence (scenario_state i c) = Some c"
  "tenant_id (scenario_state i c) = Some ''tenant-1''"
  "user_id (scenario_state i c) = Some ''user-1''"
  "messages (scenario_state i c) = [\<lparr>content = ''Should I take my pill today?''\<rparr>]"
  by (simp_all add: scenario_state_def initial_state_def)

text \<open>
  C1. For every confidence, a state whose intent is MEDICAL_ADVICE is routed to the refusal
  node; run from the router on, the turn visits the refusal node only and ends there, with no
  call to the generation provider among its effects (on a state that has its tenant, user and
  at least one message, as every state built at the turn's entry has).
\<close>

theorem medical_advice_ends_at_refusal:
  assumes "intent st = Some ''MEDICAL_ADVICE''"
  shows "route_by_intent st = ''refusal'' \<and>
    (tenant_id st \<noteq> None \<and> user_id st \<noteq> None \<and> messages st \<noteq> [] \<longrightarrow>
      (\<exists>rs'. run_graph (node_table others reply db llm) (Suc fuel) (next_node ''intent_classifier'' st)
                \<lparr>state = st, path = [], events = []\<rparr> = Inr (Some rs') \<and>
             path rs' = [''refusal''] \<and> events rs' = [DBQuery] \<and> LLMCall \<notin> set (events rs') \<and>
             raw_response (state rs') = None \<and> final_response (state rs') \<noteq> None))"
proof -
  have r: "route_by_intent st = ''refusal''"
    using assms by (rule advice_routes_refusal)
  have nn: "next_node ''intent_classifier'' st = ''refusal''"
    by (simp add: next_node_def r)
  have "\<exists>rs'. run_graph (node_table others reply db llm) (Suc fuel) ''refusal''
                \<lparr>state = st, path = [], events = []\<rparr> = Inr (Some rs') \<and>
             path rs' = [''refusal''] \<and> events rs' = [DBQuery] \<and> LLMCall \<notin> set (events rs') \<and>
             raw_response (state rs') = None \<and> final_response (state rs') \<noteq> None"
    if wf: "tenant_id st \<noteq> None \<and> user_id st \<noteq> None \<and> messages st \<noteq> []"
  proof -
    from wf obtain t u where tu: "tenant_id st = Some t" "user_id st = Some u" "messages st \<noteq> []"
      by auto
    note rr = refusal_run_wf[OF tu, of db]
    show ?thesis
      by (cases fuel)
         (simp_all add: node_table_def rr next_after_refusal refusal_not_END merge_outcome_def)
  qed
  then show ?thesis using r nn by simp
qed

theorem medical_advice_ends_at_refusal_witness:
  "intent (scenario_state (Some ''MEDICAL_ADVICE'') 0.95) = Some ''MEDICAL_ADVICE'' \<and>
   route_by_intent (scenario_state (Some ''MEDICAL_ADVICE'') 0.95) = ''refusal'' \<and>
   (\<exists>rs'. run_graph (node_table no_other_nodes (Inl ProviderError) failing_store failing_rewriter) 5
             (next_node ''intent_classifier'' (scenario_state (Some ''MEDICAL_ADVICE'') 0.95))
             \<lparr>state = scenario_state (Some ''MEDICAL_ADVICE'') 0.95, path = [], events = []\<rparr>
           = Inr (Some rs') \<and>
          path rs' = [''refusal''] \<and> events rs' = [DBQuery] \<and> LLMCall \<notin> set (events rs') \<and>
          raw_response (state rs') = None \<and> final_response (state rs') \<noteq> None)"
  using medical_advice_ends_at_refusal
          [of "scenario_state (Some ''MEDICAL_ADVICE'') 0.95" no_other_nodes "Inl ProviderError"
              failing_store failing_rewriter 4]
  by (simp add: scenario_state_simps numeral_eq_Suc)

text \<open>
  C3. Every intent outside the safe set (null and unknown values included) with a confidence
  below 0.70 is routed to the refusal node.
\<close>

theorem unsafe_low_confidence_refused:
  "intent st \<notin> safe_low_confidence \<Longrightarrow> get_confidence st < 0.70 \<Longrightarrow>
     route_by_intent st = ''refusal''"
  by (simp add: route_by_intent_def confidence_gate_def)

theorem unsafe_low_confidence_refused_witness:
  "intent (scenario_state (Some ''SMALL_TALK'') 0.5) \<notin> safe_low_confidence \<and>
   get_confidence (scenario_state (Some ''SMALL_TALK'') 0.5) < 0.70 \<and>
   route_by_intent (scenario_state (Some ''SMALL_TALK'') 0.5) = ''refusal''"
  using unsafe_low_confidence_refused [of "scenario_state (Some ''SMALL_TALK'') 0.5"]
  by (simp add: scenario_state_simps safe_low_confidence_def get_confidence_def)

text \<open>
  C4. An intent of the safe set is never routed to the refusal node, whatever the confidence:
  the router returns the node the routing map gives it. MEDICAL_ADVICE is not in the safe set,
  and NOTE_EXPLANATION goes to the note explainer (at confidence 0.40 as at any other).
\<close>

theorem safe_intent_never_refused:
  "intent st \<in> safe_low_confidence \<Longrightarrow>
     route_by_intent st \<noteq> ''refusal'' \<and>
     route_by_intent st = routing_map_get (intent st) \<and>
     intent st \<noteq> Some ''MEDICAL_ADVICE'' \<and>
     (intent st = Some ''NOTE_EXPLANATION'' \<longrightarrow> route_by_intent st = ''note_explainer'')"
  using routing_map_get_safe [of "intent st"] advice_not_safe
  by (auto simp add: route_by_intent_def confidence_gate_def routing_map_get_def routing_map_def)

theorem safe_intent_never_refused_witness:
  "intent (scenario_state (Some ''NOTE_EXPLANATION'') 0.40) \<in> safe_low_confidence \<and>
   get_confidence (scenario_state (Some ''NOTE_EXPLANATION'') 0.40) < 0.70 \<and>
   route_by_intent (scenario_state (Some ''NOTE_EXPLANATION'') 0.40) \<noteq> ''refusal'' \<and>
   route_by_intent (scenario_state (Some ''NOTE_EXPLANATION'') 0.40) = ''note_explainer''"
  using safe_intent_never_refused [of "scenario_state (Some ''NOTE_EXPLANATION'') 0.40"]
  by (simp add: scenario_state_simps safe_low_confidence_def get_confidence_def
      routing_map_get_def routing_map_def)

text \<open>
  C5, as stated, fails: a turn whose classification fails does not keep a null intent. The
  classifier's \<open>except\<close> branch sets the intent CARE_NAVIGATION with confidence 0.0; that
  intent is in the safe set, the confidence gate does not fire, and the turn is routed to the
  care navigator, not to the refusal node.
\<close>

theorem failed_classification_not_refused:
  "intent_classifier_run (Inl ProviderError) (scenario_state None 0.0)
     = Inr (classification_failure, [LLMCall]) \<and>
   intent (merge_outcome (scenario_state None 0.0) classification_failure) = Some ''CARE_NAVIGATION'' \<and>
   \<not> confidence_gate (merge_outcome (scenario_state None 0.0) classification_failure) \<and>
   route_by_intent (merge_outcome (scenario_state None 0.0) classification_failure) = ''care_navigator'' \<and>
   route_by_intent (merge_outcome (scenario_state None 0.0) classification_failure) \<noteq> ''refusal''"
  by (simp add: intent_classifier_run_def scenario_state_simps classification_failure_def
      merge_outcome_def confidence_gate_def safe_low_confidence_def route_by_intent_def
      routing_map_get_def routing_map_def)

text \<open>
  C5, amended. A turn whose classification fails (the provider call or the parsing raised, or
  the payload did not validate) gets the intent CARE_NAVIGATION with confidence 0.0 and is routed
  to the care navigator: the gate does not fire. A state whose intent is null with a confidence
  below 0.70 (as the state is before classification) is routed to the refusal node by the
  confidence gate, while the routing map would send a null intent to the care navigator.
\<close>

theorem unclassified_turn_routing:
  "(messages st \<noteq> [] \<and> (reply = Inl e \<or> (\<exists>p. reply = Inr p \<and> isl (IntentResult p))) \<longrightarrow>
      intent_classifier_run reply st = Inr (classification_failure, [LLMCall]) \<and>
      intent (merge_outcome st classification_failure) = Some ''CARE_NAVIGATION'' \<and>
      confidence (merge_outcome st classification_failure) = Some 0 \<and>
      \<not> confidence_gate (merge_outcome st classification_failure) \<and>
      route_by_intent (merge_outcome st classification_failure) = ''care_navigator'') \<and>
   (intent st = None \<and> get_confidence st < 0.70 \<longrightarrow>
      confidence_gate st \<and> route_by_intent st = ''refusal'' \<and>
      routing_map_get (intent st) = ''care_navigator'')"
proof -
  have cls: "intent_classifier_run reply st = Inr (classification_failure, [LLMCall])"
    if "messages st \<noteq> []" "reply = Inl e \<or> (\<exists>p. reply = Inr p \<and> isl (IntentResult p))"
    using that
    by (cases "messages st")
       (auto simp add: intent_classifier_run_def isl_def split: sum.splits)
  have mrg: "intent (merge_outcome st classification_failure) = Some ''CARE_NAVIGATION''"
    "confidence (merge_outcome st classification_failure) = Some 0"
    by (simp_all add: classification_failure_def merge_outcome_def)
  have gate: "\<not> confidence_gate (merge_outcome st classification_failure)"
    by (simp add: confidence_gate_def mrg safe_low_confidence_def)
  have route: "route_by_intent (merge_outcome st classification_failure) = ''care_navigator''"
    by (simp add: route_by_intent_def gate mrg routing_map_get_def routing_map_def)
  have null: "confidence_gate st \<and> route_by_intent st = ''refusal'' \<and>
      routing_map_get (intent st) = ''care_navigator''"
    if "intent st = None" "get_confidence st < 0.70"
    using that
    by (simp add: confidence_gate_def route_by_intent_def safe_low_confidence_def
        routing_map_get_None)
  show ?thesis using cls mrg gate route null by blast
qed

theorem unclassified_turn_routing_witness:
  "messages (scenario_state None 0.0) \<noteq> [] \<and>
   isl (IntentResult (''NOT_AN_INTENT'', 0.9)) \<and>
   intent_classifier_run (Inr (''NOT_AN_INTENT'', 0.9)) (scenario_state None 0.0)
     = Inr (classification_failure, [LLMCall]) \<and>
   route_by_intent (merge_outcome (scenario_state None 0.0) classification_failure) = ''care_navigator'' \<and>
   intent (scenario_state None 0.0) = None \<and> get_confidence (scenario_state None 0.0) < 0.70 \<and>
   confidence_gate (scenario_state None 0.0) \<and>
   route_by_intent (scenario_state None 0.0) = ''refusal''"
  using unclassified_turn_routing
          [of "scenario_state None 0.0" "Inr (''NOT_AN_INTENT'', 0.9)" ProviderError]
  by (simp add: scenario_state_simps IntentResult_def IntentType_def get_confidence_def)


section \<open>Refusal node properties\<close>

lemma refusal_text_cases:
  "(facts = [] \<and> refusal_text facts = NO_RECORDS_TEMPLATE) \<or>
   (facts \<noteq> [] \<and> refusal_text facts =
      REFUSAL_TEMPLATE @ [CHR 0x0A, CHR 0x0A] @
      py_join [CHR 0x0A] (map (\<lambda>fact. ''  '' @ BULLET @ '' '' @ fact) facts))"
  by (simp add: refusal_text_def)

text \<open>
  C6. Every outcome of the refusal node sets \<open>raw_response\<close> to null and \<open>final_response\<close>
  to the no-records template (when no fact was retrieved) or to the refusal template followed
  by the bulleted facts; it makes no call to the generation provider. The node produces such an
  outcome on every state that has its tenant, user and at least one message, whatever the
  record store does, and when the query raises the response is the no-records template.
\<close>

theorem refusal_outcome_shape:
  "(\<forall>us evs. refusal_run db st = Inr (us, evs) \<longrightarrow>
      (\<exists>facts.
         us = [SetFinalResponse (refusal_text facts), SetRefusalContextFacts facts,
               SetJargonMap [], SetRawResponse None] \<and>
         ((facts = [] \<and> refusal_text facts = NO_RECORDS_TEMPLATE) \<or>
          (facts \<noteq> [] \<and> refusal_text facts =
             REFUSAL_TEMPLATE @ [CHR 0x0A, CHR 0x0A] @
             py_join [CHR 0x0A] (map (\<lambda>fact. ''  '' @ BULLET @ '' '' @ fact) facts))) \<and>
         raw_response (merge_outcome st us) = None \<and>
         final_response (merge_outcome st us) = Some (refusal_text facts)) \<and>
      LLMCall \<notin> set evs) \<and>
   (tenant_id st \<noteq> None \<and> user_id st \<noteq> None \<and> messages st \<noteq> [] \<longrightarrow>
      (\<exists>us evs. refusal_run db st = Inr (us, evs)) \<and>
      ((\<forall>q u n t. isl (db q u n t)) \<longrightarrow>
         refusal_run db st =
           Inr ([SetFinalResponse NO_RECORDS_TEMPLATE, SetRefusalContextFacts [],
                 SetJargonMap [], SetRawResponse None], [DBQuery])))"
proof (intro conjI allI impI)
  fix us evs
  assume run: "refusal_run db st = Inr (us, evs)"
  then obtain t u where tu: "tenant_id st = Some t" "user_id st = Some u" "messages st \<noteq> []"
    using refusal_run_Inr by blast
  let ?facts = "fetch_context_facts db t u (content (last (messages st)))"
  from run refusal_run_wf[OF tu, of db]
  have us: "us = [SetFinalResponse (refusal_text ?facts), SetRefusalContextFacts ?facts,
               SetJargonMap [], SetRawResponse None]" and evs: "evs = [DBQuery]"
    by simp_all
  show "\<exists>facts.
         us = [SetFinalResponse (refusal_text facts), SetRefusalContextFacts facts,
               SetJargonMap [], SetRawResponse None] \<and>
         ((facts = [] \<and> refusal_text facts = NO_RECORDS_TEMPLATE) \<or>
          (facts \<noteq> [] \<and> refusal_text facts =
             REFUSAL_TEMPLATE @ [CHR 0x0A, CHR 0x0A] @
             py_join [CHR 0x0A] (map (\<lambda>fact. ''  '' @ BULLET @ '' '' @ fact) facts))) \<and>
         raw_response (merge_outcome st us) = None \<and>
         final_response (merge_outcome st us) = Some (refusal_text facts)"
    using refusal_text_cases[of ?facts] by (intro exI[of _ ?facts]) (simp add: us merge_outcome_def)
  show "LLMCall \<notin> set evs" by (simp add: evs)
next
  assume wf: "tenant_id st \<noteq> None \<and> user_id st \<noteq> None \<and> messages st \<noteq> []"
  then obtain t u where tu: "tenant_id st = Some t" "user_id st = Some u" "messages st \<noteq> []"
    by auto
  show "\<exists>us evs. refusal_run db st = Inr (us, evs)"
    using refusal_run_wf[OF tu, of db] by blast
next
  assume wf: "tenant_id st \<noteq> None \<and> user_id st \<noteq> None \<and> messages st \<noteq> []"
    and fails: "\<forall>q u n t. isl (db q u n t)"
  from wf obtain t u where tu: "tenant_id st = Some t" "user_id st = Some u" "messages st \<noteq> []"
    by auto
  have "isl (db (content (last (messages st))) u 3 t)" using fails by blast
  then have "fetch_context_facts db t u (content (last (messages st))) = []"
    by (auto simp add: fetch_context_facts_def isl_def)
  then show "refusal_run db st =
           Inr ([SetFinalResponse NO_RECORDS_TEMPLATE, SetRefusalContextFacts [],
                 SetJargonMap [], SetRawResponse None], [DBQuery])"
    using refusal_run_wf[OF tu, of db] by (simp add: refusal_text_def)
qed

lemma one_note_facts:
  "fetch_context_facts one_note_store t u q = [''Dr. Smith (2024-03-05): Continue lisinopril.'']"
  by (simp add: fetch_context_facts_def one_note_store_def row_fact_def py_strip_def
      strip_chars_def is_space_def)

theorem refusal_outcome_shape_witness:
  "tenant_id (scenario_state (Some ''MEDICAL_ADVICE'') 0.95) \<noteq> None \<and>
   user_id (scenario_state (Some ''MEDICAL_ADVICE'') 0.95) \<noteq> None \<and>
   messages (scenario_state (Some ''MEDICAL_ADVICE'') 0.95) \<noteq> [] \<and>
   (\<forall>q u n t. isl (failing_store q u n t)) \<and>
   refusal_run failing_store (scenario_state (Some ''MEDICAL_ADVICE'') 0.95) =
     Inr ([SetFinalResponse NO_RECORDS_TEMPLATE, SetRefusalContextFacts [],
           SetJargonMap [], SetRawResponse None], [DBQuery]) \<and>
   (\<exists>us evs. refusal_run one_note_store (scenario_state (Some ''MEDICAL_ADVICE'') 0.95) = Inr (us, evs) \<and>
      final_response (merge_outcome (scenario_state (Some ''MEDICAL_ADVICE'') 0.95) us) =
        Some (REFUSAL_TEMPLATE @ [CHR 0x0A, CHR 0x0A] @
              ''  '' @ BULLET @ '' Dr. Smith (2024-03-05): Continue lisinopril.'') \<and>
      raw_response (merge_outcome (scenario_state (Some ''MEDICAL_ADVICE'') 0.95) us) = None \<and>
      LLMCall \<notin> set evs)"
proof -
  let ?S = "scenario_state (Some ''MEDICAL_ADVICE'') 0.95"
  have wf: "tenant_id ?S \<noteq> None \<and> user_id ?S \<noteq> None \<and> messages ?S \<noteq> []"
    by (simp add: scenario_state_simps)
  have fl: "\<forall>q u n t. isl (failing_store q u n t)"
    by (simp add: failing_store_def)
  have a: "refusal_run failing_store ?S =
     Inr ([SetFinalResponse NO_RECORDS_TEMPLATE, SetRefusalContextFacts [],
           SetJargonMap [], SetRawResponse None], [DBQuery])"
    using refusal_outcome_shape [of failing_store ?S] wf fl by blast
  from refusal_outcome_shape [of one_note_store ?S] wf
  obtain us evs where run: "refusal_run one_note_store ?S = Inr (us, evs)"
    by blast
  with refusal_outcome_shape [of one_note_store ?S]
  have raw: "raw_response (merge_outcome ?S us) = None" and ev: "LLMCall \<notin> set evs"
    by blast+
  from run have "final_response (merge_outcome ?S us) =
        Some (REFUSAL_TEMPLATE @ [CHR 0x0A, CHR 0x0A] @
              ''  '' @ BULLET @ '' Dr. Smith (2024-03-05): Continue lisinopril.'')"
    by (simp add: refusal_run_def scenario_state_simps one_note_facts refusal_text_def
        merge_outcome_def del: append_assoc)
       (auto simp add: merge_outcome_def)
  with wf fl a run raw ev show ?thesis by blast
qed

section \<open>Guardrail properties: the phrase filter\<close>

lemma first_match_Some_iff:
  "first_match ps s \<noteq> None \<longleftrightarrow> (\<exists>p\<in>set ps. re_search (fst p) s)"
  by (induction ps s rule: first_match.induct) auto

lemma guardrail_on_match:
  assumes "first_match COMPILED_PATTERNS t = Some name" "raw_response st = Some t"
  shows "guardrail_run llm st = Inr ([SetFinalResponse SAFE_FALLBACK, SetJargonMap []], [AuditInsert])"
  using assms by (simp add: guardrail_run_def apply_medical_guardrail_def)

lemma stop_taking_matches:
  "first_match COMPILED_PATTERNS ''you should stop taking'' = Some ''prescriptive_should''"
  by code_simp

text \<open>
  C2. For every text in which some Stage-1 pattern is found (the patterns are compiled with
  IGNORECASE), the phrase filter returns the fixed fallback with the modified flag, and the
  guardrail node's outcome is the fallback as final response with an empty jargon map, whatever
  the rest of the text and the state are.
\<close>

theorem stage1_match_gives_fallback:
  assumes "\<exists>p \<in> set COMPILED_PATTERNS. re_search (fst p) t"
  shows "(\<exists>name. apply_medical_guardrail t = (SAFE_FALLBACK, True, name)) \<and>
         (raw_response st = Some t \<longrightarrow>
            guardrail_run llm st =
              Inr ([SetFinalResponse SAFE_FALLBACK, SetJargonMap []], [AuditInsert]) \<and>
            final_response (merge_outcome st [SetFinalResponse SAFE_FALLBACK, SetJargonMap []])
              = Some SAFE_FALLBACK \<and>
            jargon_map (merge_outcome st [SetFinalResponse SAFE_FALLBACK, SetJargonMap []])
              = Some [])"
proof -
  from assms obtain name where n: "first_match COMPILED_PATTERNS t = Some name"
    using first_match_Some_iff[of COMPILED_PATTERNS t] by auto
  then have "apply_medical_guardrail t = (SAFE_FALLBACK, True, name)"
    by (simp add: apply_medical_guardrail_def)
  moreover have "guardrail_run llm st =
      Inr ([SetFinalResponse SAFE_FALLBACK, SetJargonMap []], [AuditInsert])"
    if "raw_response st = Some t"
    using guardrail_on_match[OF n that] .
  ultimately show ?thesis by (simp add: merge_outcome_def)
qed

theorem stage1_match_gives_fallback_witness:
  "(\<exists>p \<in> set COMPILED_PATTERNS. re_search (fst p) ''you should stop taking'') \<and>
   raw_response (tool_state ''you should stop taking'') = Some ''you should stop taking'' \<and>
   jargon_map (tool_state ''you should stop taking'') = Some [sample_mapping] \<and>
   guardrail_run failing_rewriter (tool_state ''you should stop taking'') =
     Inr ([SetFinalResponse SAFE_FALLBACK, SetJargonMap []], [AuditInsert])"
proof -
  have h: "\<exists>p \<in> set COMPILED_PATTERNS. re_search (fst p) ''you should stop taking''"
    using first_match_Some_iff[of COMPILED_PATTERNS "''you should stop taking''"]
      stop_taking_matches by simp
  have r: "raw_response (tool_state ''you should stop taking'') = Some ''you should stop taking''"
    "jargon_map (tool_state ''you should stop taking'') = Some [sample_mapping]"
    by (simp_all add: tool_state_def)
  from stage1_match_gives_fallback[OF h, of "tool_state ''you should stop taking''" failing_rewriter] r h
  show ?thesis by blast
qed


section \<open>Guardrail properties: the fallback text\<close>

lemma starts_with_iff: "starts_with u s \<longleftrightarrow> take (length u) s = u"
  by (induction u s rule: starts_with.induct) auto

lemma occurs_iff: "occurs u s \<longleftrightarrow> (\<exists>k\<le>length s. starts_with u (drop k s))"
proof (induction s)
  case Nil
  then show ?case by (cases u) auto
next
  case (Cons x xs)
  show ?case
  proof
    assume "occurs u (x # xs)"
    then consider "starts_with u (x # xs)" | "occurs u xs" by (auto split: if_splits)
    then show "\<exists>k\<le>length (x # xs). starts_with u (drop k (x # xs))"
    proof cases
      case 1
      then show ?thesis by (intro exI[of _ 0]) simp
    next
      case 2
      with Cons.IH obtain k where "k \<le> length xs" "starts_with u (drop k xs)" by blast
      then show ?thesis by (intro exI[of _ "Suc k"]) simp
    qed
  next
    assume "\<exists>k\<le>length (x # xs). starts_with u (drop k (x # xs))"
    then obtain k where k: "k \<le> length (x # xs)" "starts_with u (drop k (x # xs))" by blast
    show "occurs u (x # xs)"
    proof (cases k)
      case 0
      with k show ?thesis by simp
    next
      case (Suc m)
      with k have "m \<le> length xs" "starts_with u (drop m xs)" by simp_all
      with Cons.IH have "occurs u xs" by blast
      then show ?thesis by simp
    qed
  qed
qed

lemma norm_case_simps:
  "length (norm_case ic s) = length s"
  "norm_case ic (u @ v) = norm_case ic u @ norm_case ic v"
  "norm_case ic (drop k s) = drop k (norm_case ic s)"
  "norm_case ic [] = []"
  by (simp_all add: norm_case_def py_lower_def drop_map)

lemma chr_eq_norm: "chr_eq ic a x \<longleftrightarrow> norm_case ic [a] = norm_case ic [x]"
  by (simp add: chr_eq_def norm_case_def py_lower_def)

lemma starts_with_append:
  "starts_with u s \<Longrightarrow> starts_with v (drop (length u) s) \<Longrightarrow> starts_with (u @ v) s"
  by (simp add: starts_with_iff take_add)

lemma in_concat_map: "a \<in> set xs \<Longrightarrow> y \<in> set (f a) \<Longrightarrow> y \<in> set (concat (map f xs))"
  by auto

lemma heads_Seq_incomplete:
  assumes "(u, False) \<in> set (heads r)"
  shows "(u, False) \<in> set (heads (Seq r q))"
  unfolding heads.simps by (rule in_concat_map[OF assms]) simp

lemma heads_Seq_complete:
  assumes "(u, True) \<in> set (heads r)" "(v, d) \<in> set (heads q)"
  shows "(u @ v, d) \<in> set (heads (Seq r q))"
proof -
  have "(u @ v, d) = (case (v, d) of (v, d) \<Rightarrow> (u @ v, d))" by simp
  with assms(2) have "(u @ v, d) \<in> (\<lambda>(v, d). (u @ v, d)) ` set (heads q)"
    by (rule image_eqI[rotated])
  then show ?thesis
    unfolding heads.simps by (intro in_concat_map[OF assms(1)]) simp
qed

lemma heads_sound:
  "(p', s') \<in> set (rx_run ic r (p, s)) \<Longrightarrow>
     \<exists>u c. (u, c) \<in> set (heads r) \<and> starts_with (norm_case ic u) (norm_case ic s) \<and>
        (c \<longrightarrow> s' = drop (length u) s)"
proof (induction r arbitrary: p s p' s')
  case Eps
  then show ?case by (auto simp add: norm_case_simps)
next
  case (Lit a)
  then obtain x where x: "s = x # s'" "chr_eq ic a x"
    by (auto split: list.splits if_splits)
  have "starts_with (norm_case ic [a]) (norm_case ic s)"
    using x chr_eq_norm[of ic a x] norm_case_simps(2)[of ic "[x]" s']
    by (simp add: starts_with_iff norm_case_simps(1))
  then show ?case using x by auto
next
  case (Cls cl)
  show ?case by (auto simp add: norm_case_simps)
next
  case WordB
  then show ?case by (auto simp add: norm_case_simps split: if_splits)
next
  case (Seq r q)
  from Seq.prems obtain p1 s1 where
    a: "(p1, s1) \<in> set (rx_run ic r (p, s))" and b: "(p', s') \<in> set (rx_run ic q (p1, s1))"
    by auto
  from Seq.IH(1)[OF a] obtain u c where
    u: "(u, c) \<in> set (heads r)" "starts_with (norm_case ic u) (norm_case ic s)"
       "c \<longrightarrow> s1 = drop (length u) s"
    by blast
  show ?case
  proof (cases c)
    case False
    with u(1) have "(u, False) \<in> set (heads (Seq r q))" by (simp only: heads_Seq_incomplete)
    with u(2) show ?thesis by blast
  next
    case True
    from Seq.IH(2)[OF b] obtain v d where
      v: "(v, d) \<in> set (heads q)" "starts_with (norm_case ic v) (norm_case ic s1)"
         "d \<longrightarrow> s' = drop (length v) s1"
      by blast
    from True u(1) v(1) have m: "(u @ v, d) \<in> set (heads (Seq r q))"
      by (simp only: heads_Seq_complete)
    from True u(3) have s1: "s1 = drop (length u) s" by simp
    have sw: "starts_with (norm_case ic (u @ v)) (norm_case ic s)"
      using starts_with_append[OF u(2), of "norm_case ic v"] v(2)
      by (simp add: norm_case_simps s1)
    have dr: "d \<longrightarrow> s' = drop (length (u @ v)) s"
      using v(3) s1 by (simp add: add.commute)
    from m sw dr show ?thesis by blast
  qed
next
  case (Alt r q)
  from Alt.prems have "(p', s') \<in> set (rx_run ic r (p, s)) \<or> (p', s') \<in> set (rx_run ic q (p, s))"
    by auto
  then show ?case
  proof
    assume "(p', s') \<in> set (rx_run ic r (p, s))"
    from Alt.IH(1)[OF this] show ?thesis by auto
  next
    assume "(p', s') \<in> set (rx_run ic q (p, s))"
    from Alt.IH(2)[OF this] show ?thesis by auto
  qed
next
  case (Opt r)
  show ?case by (auto simp add: norm_case_simps)
next
  case (Plus cl)
  show ?case by (auto simp add: norm_case_simps)
next
  case (Star cl)
  show ?case by (auto simp add: norm_case_simps)
qed

lemma starts_with_occurs: "starts_with u s \<Longrightarrow> occurs u s"
  unfolding occurs_iff by (intro exI[of _ 0]) simp

lemma occurs_Cons: "occurs u xs \<Longrightarrow> occurs u (x # xs)"
  by simp

lemma norm_case_Cons: "\<exists>y. norm_case ic (x # xs) = y # norm_case ic xs"
  by (simp add: norm_case_def py_lower_def)

lemma search_heads:
  "search_from ic r p s \<Longrightarrow> \<exists>u c. (u, c) \<in> set (heads r) \<and> occurs (norm_case ic u) (norm_case ic s)"
proof (induction s arbitrary: p)
  case Nil
  then obtain p' s' where "(p', s') \<in> set (rx_run ic r (p, []))"
    by (cases "rx_run ic r (p, [])") auto
  from heads_sound[OF this] obtain u c where
    "(u, c) \<in> set (heads r)" "starts_with (norm_case ic u) (norm_case ic [])"
    by blast
  then show ?case using starts_with_occurs by blast
next
  case (Cons x xs)
  show ?case
  proof (cases "rx_run ic r (p, x # xs) = []")
    case False
    then obtain p' s' where "(p', s') \<in> set (rx_run ic r (p, x # xs))"
      by (cases "rx_run ic r (p, x # xs)") auto
    from heads_sound[OF this] obtain u c where
      "(u, c) \<in> set (heads r)" "starts_with (norm_case ic u) (norm_case ic (x # xs))"
      by blast
    then show ?thesis using starts_with_occurs by blast
  next
    case True
    with Cons.prems have "search_from ic r (Some x) xs" by simp
    from Cons.IH[OF this] obtain u c where
      uc: "(u, c) \<in> set (heads r)" "occurs (norm_case ic u) (norm_case ic xs)"
      by blast
    obtain y where "norm_case ic (x # xs) = y # norm_case ic xs"
      using norm_case_Cons by blast
    with uc(2) have "occurs (norm_case ic u) (norm_case ic (x # xs))"
      by (simp only: occurs_Cons)
    with uc(1) show ?thesis by blast
  qed
qed

lemma no_head_no_match:
  assumes "\<forall>u \<in> set (map (\<lambda>(u, c). py_lower u) (heads r)). \<not> occurs u (py_lower s)"
  shows "\<not> re_search (True, r) s"
proof
  assume "re_search (True, r) s"
  then have "search_from True r None s" by (simp add: re_search_def)
  from search_heads[OF this] obtain u c where
    uc: "(u, c) \<in> set (heads r)" "occurs (py_lower u) (py_lower s)"
    by (auto simp add: norm_case_def)
  from uc(1) have "py_lower u \<in> set (map (\<lambda>(u, c). py_lower u) (heads r))"
    by (auto intro!: image_eqI[of _ _ "(u, c)"])
  with assms uc(2) show False by blast
qed

lemma first_match_None:
  assumes a: "\<forall>(r, n) \<in> set RAW_PATTERNS. \<not> re_search (True, r) s"
  shows "first_match COMPILED_PATTERNS s = None"
proof -
  have "\<not> (\<exists>p\<in>set COMPILED_PATTERNS. re_search (fst p) s)"
  proof
    assume "\<exists>p\<in>set COMPILED_PATTERNS. re_search (fst p) s"
    then obtain r n where "(r, n) \<in> set RAW_PATTERNS" "re_search (True, r) s"
      unfolding COMPILED_PATTERNS_def by auto
    with a show False by blast
  qed
  then show ?thesis using first_match_Some_iff[of COMPILED_PATTERNS s] by simp
qed

lemma no_heads_no_first_match:
  assumes "\<forall>us \<in> set (map (\<lambda>(r, n). map (\<lambda>(u, c). py_lower u) (heads r)) RAW_PATTERNS).
             \<forall>u \<in> set us. \<not> occurs u (py_lower s)"
  shows "first_match COMPILED_PATTERNS s = None"
proof (rule first_match_None, clarify)
  fix r n
  assume rn: "(r, n) \<in> set RAW_PATTERNS" and m: "re_search (True, r) s"
  from rn have "map (\<lambda>(u, c). py_lower u) (heads r)
      \<in> set (map (\<lambda>(r, n). map (\<lambda>(u, c). py_lower u) (heads r)) RAW_PATTERNS)"
    by (auto intro!: image_eqI[of _ _ "(r, n)"])
  with assms have "\<forall>u \<in> set (map (\<lambda>(u, c). py_lower u) (heads r)). \<not> occurs u (py_lower s)"
    by blast
  from no_head_no_match[OF this] m show False by blast
qed

text \<open>Stepping rules for the scan: each one looks at the first character only.\<close>

lemma starts_with_same: "a = x \<Longrightarrow> starts_with (a # u) (x # xs) = starts_with u xs"
  by simp

lemma starts_with_other: "a \<noteq> x \<Longrightarrow> starts_with (a # u) (x # xs) = False"
  by simp

lemma occurs_other: "a \<noteq> x \<Longrightarrow> occurs (a # u) (x # xs) = occurs (a # u) xs"
  by simp

lemma occurs_same:
  "a = x \<Longrightarrow> occurs (a # u) (x # xs) = (starts_with u xs \<or> occurs (a # u) xs)"
  by simp

lemma occurs_end: "occurs (a # u) [] = False"
  by simp

lemmas scan_rules =
  starts_with_same starts_with_other occurs_other occurs_same occurs_end starts_with.simps(1,2)

lemma lowered_fallback:
  "py_lower SAFE_FALLBACK = ''i wasn't able to generate a safe response for that request. please contact your care team directly for medical guidance.\<newline>\<newline>you can reach me for factual questions about your own documented records.''"
  by code_simp

lemma lowered_heads:
  "map (\<lambda>(r, n). map (\<lambda>(u, c). py_lower u) (heads r)) RAW_PATTERNS =
   [[''i diagnose''], [''i recommend''], [''i suggest''], [''try this instead''],
    [''you should take'', ''you should stop'', ''you should start'',
     ''you should avoid'', ''you should use'', ''you must take'',
     ''you must stop'', ''you must start'', ''you must avoid'',
     ''you must use'', ''you need to take'', ''you need to stop'',
     ''you need to start'', ''you need to avoid'', ''you need to use''],
    [''this indicates you have'', ''this suggests you have'', ''this means you have''],
    [''you likely have'', ''you probably have'', ''you definitely have''],
    [''your condition is''],
    [''i would prescribe'', ''i will prescribe'', ''i can prescribe''],
    [''you are likely developing'', ''you are likely experiencing'',
     ''you are probably developing'', ''you are probably experiencing''],
    [''cut out'', ''stop eating'', ''avoid eating''], [''take ''],
    [''seek immediate '', ''seek emergency '', ''seek urgent '']]"
  by code_simp

lemma fallback_no_match: "first_match COMPILED_PATTERNS SAFE_FALLBACK = None"
  apply (rule no_heads_no_first_match)
  unfolding lowered_heads lowered_fallback
  apply (simp add: scan_rules del: starts_with.simps occurs.simps)
  done

lemma fallback_sentences: "length (text_sentences SAFE_FALLBACK) = 3"
  by code_simp

lemma fallback_words: "text_words SAFE_FALLBACK =
  [''I'', ''wasn't'', ''able'', ''to'', ''generate'', ''a'', ''safe'', ''response'', ''for'',
   ''that'', ''request'', ''Please'', ''contact'', ''your'', ''care'', ''team'', ''directly'',
   ''for'', ''medical'', ''guidance'', ''You'', ''can'', ''reach'', ''me'', ''for'', ''factual'',
   ''questions'', ''about'', ''your'', ''own'', ''documented'', ''records'']"
  by code_simp

lemma fallback_syllables: "sum_list (map count_syllables
  [''I'', ''wasn't'', ''able'', ''to'', ''generate'', ''a'', ''safe'', ''response'', ''for'',
   ''that'', ''request'', ''Please'', ''contact'', ''your'', ''care'', ''team'', ''directly'',
   ''for'', ''medical'', ''guidance'', ''You'', ''can'', ''reach'', ''me'', ''for'', ''factual'',
   ''questions'', ''about'', ''your'', ''own'', ''documented'', ''records'']) = 51"
  by code_simp

lemma fallback_not_blank: "SAFE_FALLBACK \<noteq> [] \<and> py_strip SAFE_FALLBACK \<noteq> []"
  by code_simp

lemma fallback_formula: "fk_grade (32 / 3) (51 / 32) = 7.38"
  by (simp add: fk_grade_def py_round2_def round_half_even_def Let_def)

lemma fallback_grade: "check_readability SAFE_FALLBACK = 7.38"
proof -
  have w: "length (text_words SAFE_FALLBACK) = 32"
    by (simp add: fallback_words)
  have y: "sum_list (map count_syllables (text_words SAFE_FALLBACK)) = 51"
    unfolding fallback_words by (rule fallback_syllables)
  show ?thesis
    unfolding check_readability_def Let_def w y fallback_sentences
    using fallback_not_blank fallback_formula by simp
qed

text \<open>
  C7, as stated, fails: the guardrail does not return an empty jargon map for every state whose
  raw response is the fallback text. The text passes both stages, and on that branch the node
  returns the jargon map it received: a state that carries one annotation keeps it.
\<close>

theorem fallback_keeps_received_annotations:
  "raw_response (tool_state SAFE_FALLBACK) = Some SAFE_FALLBACK \<and>
   jargon_map (tool_state SAFE_FALLBACK) = Some [sample_mapping] \<and>
   guardrail_run failing_rewriter (tool_state SAFE_FALLBACK) =
     Inr ([SetFinalResponse SAFE_FALLBACK, SetJargonMap [sample_mapping]], []) \<and>
   guardrail_run failing_rewriter (tool_state SAFE_FALLBACK) \<noteq>
     Inr ([SetFinalResponse SAFE_FALLBACK, SetJargonMap []], [])"
  by (simp add: guardrail_run_def apply_medical_guardrail_def fallback_no_match fallback_grade
      READABILITY_THRESHOLD_def tool_state_def)

text \<open>
  C7, amended. The fallback text matches no Stage-1 pattern, and its readability grade, 7.38,
  does not exceed the threshold 8.0: for every state whose raw response is the fallback text the
  guardrail returns the text unchanged, without calling the rewrite step, together with the
  jargon map exactly as received. So the map returned is empty when the map received is empty or
  absent, as it is in the guardrail's own fallback outcome.
\<close>

theorem guardrail_fixed_on_fallback:
  "apply_medical_guardrail SAFE_FALLBACK = (SAFE_FALLBACK, False, '''') \<and>
   check_readability SAFE_FALLBACK = 7.38 \<and>
   \<not> check_readability SAFE_FALLBACK > READABILITY_THRESHOLD \<and>
   guardrail_run llm (st\<lparr>raw_response := Some SAFE_FALLBACK\<rparr>) =
     Inr ([SetFinalResponse SAFE_FALLBACK,
           SetJargonMap (case jargon_map st of None \<Rightarrow> [] | Some m \<Rightarrow> m)], []) \<and>
   guardrail_run llm (st\<lparr>raw_response := Some SAFE_FALLBACK, jargon_map := Some []\<rparr>) =
     Inr ([SetFinalResponse SAFE_FALLBACK, SetJargonMap []], []) \<and>
   guardrail_run llm (st\<lparr>raw_response := Some SAFE_FALLBACK, jargon_map := None\<rparr>) =
     Inr ([SetFinalResponse SAFE_FALLBACK, SetJargonMap []], [])"
  by (simp add: guardrail_run_def apply_medical_guardrail_def fallback_no_match fallback_grade
      READABILITY_THRESHOLD_def)

theorem guardrail_fixed_on_fallback_witness:
  "guardrail_run failing_rewriter
     ((tool_state ''you should stop taking'')\<lparr>raw_response := Some SAFE_FALLBACK, jargon_map := Some []\<rparr>) =
     Inr ([SetFinalResponse SAFE_FALLBACK, SetJargonMap []], [])"
  using guardrail_fixed_on_fallback [of failing_rewriter "tool_state ''you should stop taking''"]
  by simp

section \<open>Readability properties\<close>





lemma fk_grade_fl_id: "fk_grade_fl (\<lambda>x. x) asl asw = fk_grade asl asw"
  by (simp add: fk_grade_fl_def fk_grade_def)











section \<open>Syllable counting against the specification's heuristic\<close>

















section \<open>Jargon annotation properties\<close>














end
